theory Spec2Isabelle
  imports Complex_Main "HOL-Library.AList" "HOL-Library.Char_ord" "HOL-Library.List_Lexorder"
    "HOL-Library.Sublist" "HOL-Library.Multiset"
begin

section \<open>Python values\<close>

text \<open>
  The program is \<^verbatim>\<open>scrobbler.py\<close>: a class \<^verbatim>\<open>LastFMScrobbler\<close> and a prompt loop
  \<^verbatim>\<open>main\<close>. The objects it handles come from \<^verbatim>\<open>json.load\<close>, \<^verbatim>\<open>response.json()\<close> and
  \<^verbatim>\<open>input\<close>: \<^verbatim>\<open>None\<close>, booleans, unbounded integers, floats, strings, lists and
  string-keyed dictionaries.

  A Python \<^verbatim>\<open>str\<close> is held as its UTF-8 byte sequence (\<^typ>\<open>string\<close>). Concatenation
  and substring tests are the same on both readings, and the byte-wise lexicographic
  order of UTF-8 is the code-point order Python's \<^verbatim>\<open>sorted\<close> uses, so
  \<^verbatim>\<open>.encode('utf-8')\<close> is the identity here. Strings with lone surrogates, which have no
  UTF-8 form, are outside the model.

  A finite float is held as the rational it denotes.
\<close>

datatype pyfloat = Finite rat | PosInf | NegInf | NaN

datatype pyobj =
    PyNone
  | PyBool bool
  | PyInt int
  | PyFloat pyfloat
  | PyStr string
  | PyList "pyobj list"
  | PyDict "(string \<times> pyobj) list"

text \<open>
  A \<^verbatim>\<open>dict\<close> is an association list in insertion order with distinct keys:
  \<^const>\<open>map_of\<close> reads it, \<^const>\<open>AList.update\<close> is \<^verbatim>\<open>d[k] = v\<close> (in place when the key
  exists, appended otherwise) and \<^const>\<open>AList.delete\<close> is \<^verbatim>\<open>d.pop(k, None)\<close>.
\<close>

type_synonym pydict = "(string \<times> pyobj) list"

text \<open>
  Exceptions, as values. Every constructor is a subclass of \<^verbatim>\<open>Exception\<close>, which is
  what the three \<^verbatim>\<open>except Exception\<close> handlers of the program catch.
  \<^verbatim>\<open>PlainException msg\<close> is \<^verbatim>\<open>Exception(msg)\<close> itself. Asynchronous interrupts
  (\<^verbatim>\<open>KeyboardInterrupt\<close>, \<^verbatim>\<open>SystemExit\<close>) are not values of this type.
\<close>

datatype exn =
    HTTPError nat
  | ConnectionError
  | JSONDecodeError
  | TypeError
  | AttributeError
  | KeyError
  | ValueError
  | OverflowError
  | EOFError
  | OSError
  | PlainException string

text \<open>
  Three library functions the program calls are taken as parameters:
  \<^verbatim>\<open>repr_of\<close> is \<^verbatim>\<open>str\<close> on floats, lists and dictionaries, \<^verbatim>\<open>int_of_str\<close> is \<^verbatim>\<open>int\<close> on a
  string (\<^verbatim>\<open>None\<close> where Python raises \<^verbatim>\<open>ValueError\<close>), and \<^verbatim>\<open>md5_hexdigest\<close> is
  \<^verbatim>\<open>hashlib.md5(bytes).hexdigest()\<close>.
\<close>

record builtins =
  repr_of :: "pyobj \<Rightarrow> string"
  int_of_str :: "string \<Rightarrow> int option"
  md5_hexdigest :: "string \<Rightarrow> string"

fun str_nat :: "nat \<Rightarrow> string" where
  "str_nat n =
     (if n < 10 then [''0123456789'' ! n]
      else str_nat (n div 10) @ [''0123456789'' ! (n mod 10)])"

text \<open>\<^verbatim>\<open>str(i)\<close> for an integer.\<close>

definition str_int :: "int \<Rightarrow> string" where
  "str_int i = (if i < 0 then CHR ''-'' # str_nat (nat (- i)) else str_nat (nat i))"

text \<open>\<^verbatim>\<open>str(v)\<close>, which is also what \<^verbatim>\<open>f"{v}"\<close> inserts.\<close>

fun py_str :: "builtins \<Rightarrow> pyobj \<Rightarrow> string" where
  "py_str lib (PyStr s) = s"
| "py_str lib PyNone = ''None''"
| "py_str lib (PyBool b) = (if b then ''True'' else ''False'')"
| "py_str lib (PyInt n) = str_int n"
| "py_str lib v = repr_of lib v"

text \<open>\<^verbatim>\<open>int(x)\<close> on a float truncates towards zero.\<close>

definition py_trunc :: "rat \<Rightarrow> int" where
  "py_trunc r = (if 0 \<le> r then \<lfloor>r\<rfloor> else \<lceil>r\<rceil>)"

fun py_int :: "builtins \<Rightarrow> pyobj \<Rightarrow> exn + int" where
  "py_int lib (PyInt n) = Inr n"
| "py_int lib (PyBool b) = Inr (if b then 1 else 0)"
| "py_int lib (PyFloat (Finite r)) = Inr (py_trunc r)"
| "py_int lib (PyFloat NaN) = Inl ValueError"
| "py_int lib (PyFloat PosInf) = Inl OverflowError"
| "py_int lib (PyFloat NegInf) = Inl OverflowError"
| "py_int lib (PyStr s) = (case int_of_str lib s of Some n \<Rightarrow> Inr n | None \<Rightarrow> Inl ValueError)"
| "py_int lib PyNone = Inl TypeError"
| "py_int lib (PyList xs) = Inl TypeError"
| "py_int lib (PyDict d) = Inl TypeError"

text \<open>Truth value of an object, as \<^verbatim>\<open>if not x\<close> and \<^verbatim>\<open>x or y\<close> test it.\<close>

fun truthy :: "pyobj \<Rightarrow> bool" where
  "truthy PyNone = False"
| "truthy (PyBool b) = b"
| "truthy (PyInt n) = (n \<noteq> 0)"
| "truthy (PyFloat f) = (f \<noteq> Finite 0)"
| "truthy (PyStr s) = (s \<noteq> [])"
| "truthy (PyList xs) = (xs \<noteq> [])"
| "truthy (PyDict d) = (d \<noteq> [])"

text \<open>\<^verbatim>\<open>k in x\<close> for a string \<^verbatim>\<open>k\<close>: key test, membership, substring, or \<^verbatim>\<open>TypeError\<close>.\<close>

fun py_contains :: "string \<Rightarrow> pyobj \<Rightarrow> exn + bool" where
  "py_contains k (PyDict d) = Inr (map_of d k \<noteq> None)"
| "py_contains k (PyList xs) = Inr (List.member xs (PyStr k))"
| "py_contains k (PyStr s) = Inr (sublist k s)"
| "py_contains k v = Inl TypeError"

text \<open>\<^verbatim>\<open>x[k]\<close> for a string \<^verbatim>\<open>k\<close>.\<close>

fun py_getitem :: "pyobj \<Rightarrow> string \<Rightarrow> exn + pyobj" where
  "py_getitem (PyDict d) k = (case map_of d k of Some v \<Rightarrow> Inr v | None \<Rightarrow> Inl KeyError)"
| "py_getitem v k = Inl TypeError"

text \<open>\<^verbatim>\<open>x.get(k, default)\<close>: only a dictionary has the method.\<close>

fun py_get :: "pyobj \<Rightarrow> string \<Rightarrow> pyobj \<Rightarrow> exn + pyobj" where
  "py_get (PyDict d) k dflt = Inr (case map_of d k of Some v \<Rightarrow> v | None \<Rightarrow> dflt)"
| "py_get v k dflt = Inl AttributeError"

section \<open>The world outside the process\<close>

text \<open>
  The credentials file is absent, present but not readable, or readable; a readable file
  holds JSON (\<^verbatim>\<open>Some\<close> of what \<^verbatim>\<open>json.load\<close> returns) or text \<^verbatim>\<open>json.load\<close> rejects.
\<close>

datatype file_state = Absent | Unreadable | Content "pyobj option"

text \<open>
  A request of the \<^verbatim>\<open>requests\<close> library either fails to produce a response or yields a
  status code and a body; the body is \<^verbatim>\<open>Some\<close> of its JSON value, or \<^verbatim>\<open>None\<close> when
  \<^verbatim>\<open>response.json()\<close> raises.
\<close>

datatype http_outcome = NoResponse | Response nat "pyobj option"

datatype verb = GET | POST

type_synonym request = "verb \<times> pydict"

datatype log_record = LogError string exn | LogInfo int int

text \<open>
  The server answers the \<open>n\<close>-th request of the run as a function of \<open>n\<close> and the request.
  \<^verbatim>\<open>sent\<close>, \<^verbatim>\<open>stdout\<close>, \<^verbatim>\<open>browser\<close> and \<^verbatim>\<open>logged\<close> record what the process has emitted,
  \<^verbatim>\<open>stdin\<close> holds the lines still to be read, \<^verbatim>\<open>clock\<close> is what \<^verbatim>\<open>time.time()\<close> returns
  and \<^verbatim>\<open>slept\<close> counts the seconds spent in \<^verbatim>\<open>time.sleep\<close>.
\<close>

record world =
  cred_file :: file_state
  cred_writable :: bool
  server :: "nat \<Rightarrow> request \<Rightarrow> http_outcome"
  sent :: "request list"
  stdin :: "string list"
  stdout :: "string list"
  browser :: "string list"
  logged :: "log_record list"
  clock :: rat
  slept :: nat

definition API_KEY :: string where "API_KEY = ''''"

definition API_SECRET :: string where "API_SECRET = ''''"

definition log_error :: "string \<Rightarrow> exn \<Rightarrow> world \<Rightarrow> world" where
  "log_error msg e w = w\<lparr>logged := logged w @ [LogError msg e]\<rparr>"

definition log_info :: "int \<Rightarrow> int \<Rightarrow> world \<Rightarrow> world" where
  "log_info k n w = w\<lparr>logged := logged w @ [LogInfo k n]\<rparr>"

definition print_line :: "string \<Rightarrow> world \<Rightarrow> world" where
  "print_line s w = w\<lparr>stdout := stdout w @ [s]\<rparr>"

text \<open>\<^verbatim>\<open>input(prompt)\<close>: the prompt is written, then a line is read or \<^verbatim>\<open>EOFError\<close> raised.\<close>

definition input_line :: "string \<Rightarrow> world \<Rightarrow> (exn + string) \<times> world" where
  "input_line prompt w =
     (let w1 = print_line prompt w
      in case stdin w1 of
           [] \<Rightarrow> (Inl EOFError, w1)
         | l # ls \<Rightarrow> (Inr l, w1\<lparr>stdin := ls\<rparr>))"

definition http_request :: "request \<Rightarrow> world \<Rightarrow> http_outcome \<times> world" where
  "http_request r w = (server w (length (sent w)) r, w\<lparr>sent := sent w @ [r]\<rparr>)"

text \<open>\<^verbatim>\<open>response.json()\<close>.\<close>

definition response_json :: "pyobj option \<Rightarrow> exn + pyobj" where
  "response_json body = (case body of None \<Rightarrow> Inl JSONDecodeError | Some j \<Rightarrow> Inr j)"

text \<open>
  \<^verbatim>\<open>response.raise_for_status()\<close> of the \<^verbatim>\<open>requests\<close> library raises \<^verbatim>\<open>HTTPError\<close> for a
  client error (400 to 499) or a server error (500 to 599) and returns for every other
  status.
\<close>

definition raise_for_status :: "nat \<Rightarrow> exn + unit" where
  "raise_for_status status =
     (if 400 \<le> status \<and> status < 600 then Inl (HTTPError status) else Inr ())"

section \<open>The scrobbler object and its credentials\<close>

record scrobbler =
  session_key :: pyobj

text \<open>
  The body of the \<^verbatim>\<open>try\<close> in \<^verbatim>\<open>load_session\<close>: \<^verbatim>\<open>Inr (Some v)\<close> is \<^verbatim>\<open>return v\<close>,
  \<^verbatim>\<open>Inr None\<close> is falling out of the \<^verbatim>\<open>try\<close>, \<^verbatim>\<open>Inl e\<close> is an exception.
\<close>

definition load_session_try :: "world \<Rightarrow> exn + pyobj option" where
  "load_session_try w =
     (case cred_file w of
        Absent \<Rightarrow> Inr None
      | Unreadable \<Rightarrow> Inl OSError
      | Content None \<Rightarrow> Inl JSONDecodeError
      | Content (Some data) \<Rightarrow>
          (case py_contains ''session_key'' data of
             Inl e \<Rightarrow> Inl e
           | Inr False \<Rightarrow> Inr None
           | Inr True \<Rightarrow>
               (case py_getitem data ''session_key'' of
                  Inl e \<Rightarrow> Inl e
                | Inr v \<Rightarrow> Inr (Some v))))"

definition load_session :: "world \<Rightarrow> pyobj \<times> world" where
  "load_session w =
     (case load_session_try w of
        Inl e \<Rightarrow> (PyNone, log_error ''Error loading credentials'' e w)
      | Inr (Some v) \<Rightarrow> (v, w)
      | Inr None \<Rightarrow> (PyNone, w))"

text \<open>\<^verbatim>\<open>LastFMScrobbler()\<close>.\<close>

definition init :: "world \<Rightarrow> scrobbler \<times> world" where
  "init w = (let (k, w1) = load_session w in (\<lparr>session_key = k\<rparr>, w1))"

definition save_credentials :: "pyobj \<Rightarrow> world \<Rightarrow> world" where
  "save_credentials key w =
     (if cred_writable w
      then w\<lparr>cred_file := Content (Some (PyDict [(''session_key'', key)]))\<rparr>
      else log_error ''Error saving credentials'' OSError w)"

section \<open>Request signatures\<close>

text \<open>
  \<^verbatim>\<open>get_signature\<close> receives a reference to the caller's dictionary, copies it and pops
  from the copy. Dictionary objects live in a store, addressed by their index;
  \<^verbatim>\<open>params.copy()\<close> allocates a new object and \<^verbatim>\<open>pop\<close> updates an object in place.
\<close>

type_synonym ref = nat

type_synonym store = "pydict list"

definition dict_copy :: "store \<Rightarrow> ref \<Rightarrow> ref \<times> store" where
  "dict_copy h r = (length h, h @ [h ! r])"

text \<open>\<^verbatim>\<open>d.pop(k, None)\<close>: the entry is removed when present, nothing is raised otherwise.\<close>

definition dict_pop :: "store \<Rightarrow> ref \<Rightarrow> string \<Rightarrow> store" where
  "dict_pop h r k = h[r := AList.delete k (h ! r)]"

text \<open>
  \<^verbatim>\<open>''.join([f"{k}{params[k]}" for k in sorted(params.keys())])\<close>; every \<open>k\<close> is a key
  of \<open>d\<close>, so the lookup \<^verbatim>\<open>params[k]\<close> finds a value.
\<close>

definition join_sorted :: "builtins \<Rightarrow> pydict \<Rightarrow> string" where
  "join_sorted lib d = concat (map (\<lambda>k. k @ py_str lib (the (map_of d k))) (sort (map fst d)))"

definition get_signature :: "builtins \<Rightarrow> store \<Rightarrow> ref \<Rightarrow> string \<times> store" where
  "get_signature lib h params =
     (let (params', h1) = dict_copy h params;
          h2 = dict_pop h1 params' ''format'';
          signature = join_sorted lib (h2 ! params');
          signature = signature @ API_SECRET
      in (md5_hexdigest lib signature, h2))"

text \<open>
  The callers below build \<^verbatim>\<open>params\<close> as a local dictionary and keep using it after the
  call: the value returned for a store that holds just that dictionary.
\<close>

definition signature_of :: "builtins \<Rightarrow> pydict \<Rightarrow> string" where
  "signature_of lib params = fst (get_signature lib [params] 0)"

section \<open>Authentication\<close>

definition get_token :: "world \<Rightarrow> (exn + pyobj) \<times> world" where
  "get_token w =
     (let params = [(''method'', PyStr ''auth.getToken''), (''api_key'', PyStr API_KEY),
                    (''format'', PyStr ''json'')];
          (response, w1) = http_request (GET, params) w
      in case response of
           NoResponse \<Rightarrow> (Inl ConnectionError, w1)
         | Response status body \<Rightarrow>
             (case response_json body of
                Inl e \<Rightarrow> (Inl e, w1)
              | Inr data \<Rightarrow>
                  (case py_contains ''token'' data of
                     Inl e \<Rightarrow> (Inl e, w1)
                   | Inr True \<Rightarrow> (py_getitem data ''token'', w1)
                   | Inr False \<Rightarrow>
                       (Inl (PlainException ''Failed to get authentication token''), w1))))"

definition auth_url :: "builtins \<Rightarrow> pyobj \<Rightarrow> string" where
  "auth_url lib token =
     ''http://www.last.fm/api/auth/?api_key='' @ API_KEY @ ''&token='' @ py_str lib token"

definition authorize_token :: "builtins \<Rightarrow> pyobj \<Rightarrow> world \<Rightarrow> (exn + unit) \<times> world" where
  "authorize_token lib token w =
     (let w1 = print_line ''Please authorize this application by visiting this URL:'' w;
          w2 = print_line (auth_url lib token) w1;
          w3 = w2\<lparr>browser := browser w2 @ [auth_url lib token]\<rparr>
      in case input_line ''Press Enter after you've authorized the application...'' w3 of
           (Inl e, w4) \<Rightarrow> (Inl e, w4)
         | (Inr l, w4) \<Rightarrow> (Inr (), w4))"

definition get_session :: "builtins \<Rightarrow> pyobj \<Rightarrow> world \<Rightarrow> (exn + pyobj) \<times> world" where
  "get_session lib token w =
     (let params = [(''method'', PyStr ''auth.getSession''), (''api_key'', PyStr API_KEY),
                    (''token'', token)];
          params = AList.update ''api_sig'' (PyStr (signature_of lib params)) params;
          params = AList.update ''format'' (PyStr ''json'') params;
          (response, w1) = http_request (GET, params) w
      in case response of
           NoResponse \<Rightarrow> (Inl ConnectionError, w1)
         | Response status body \<Rightarrow>
             (case response_json body of
                Inl e \<Rightarrow> (Inl e, w1)
              | Inr data \<Rightarrow>
                  (case py_contains ''session'' data of
                     Inl e \<Rightarrow> (Inl e, w1)
                   | Inr False \<Rightarrow> (Inl (PlainException ''Failed to get session key''), w1)
                   | Inr True \<Rightarrow>
                       (case py_getitem data ''session'' of
                          Inl e \<Rightarrow> (Inl e, w1)
                        | Inr s \<Rightarrow>
                            (case py_getitem s ''key'' of
                               Inl e \<Rightarrow> (Inl e, w1)
                             | Inr key \<Rightarrow> (Inr key, save_credentials key w1))))))"

definition ensure_auth ::
  "builtins \<Rightarrow> scrobbler \<Rightarrow> world \<Rightarrow> (exn + unit) \<times> scrobbler \<times> world" where
  "ensure_auth lib self w =
     (if \<not> truthy (session_key self) then
        (case get_token w of
           (Inl e, w1) \<Rightarrow> (Inl e, self, w1)
         | (Inr token, w1) \<Rightarrow>
             (case authorize_token lib token w1 of
                (Inl e, w2) \<Rightarrow> (Inl e, self, w2)
              | (Inr u, w2) \<Rightarrow>
                  (case get_session lib token w2 of
                     (Inl e, w3) \<Rightarrow> (Inl e, self, w3)
                   | (Inr key, w3) \<Rightarrow>
                       (Inr (), self\<lparr>session_key := key\<rparr>,
                        print_line ''Successfully authenticated!'' w3))))
      else (Inr (), self, w))"

section \<open>Submitting scrobbles\<close>

text \<open>\<^verbatim>\<open>int(time.time())\<close>.\<close>

definition now :: "world \<Rightarrow> int" where
  "now w = py_trunc (clock w)"

text \<open>
  \<^verbatim>\<open>scrobble_track\<close>: \<^verbatim>\<open>timestamp or int(time.time())\<close> takes the clock when the timestamp
  is \<^verbatim>\<open>None\<close> or \<^verbatim>\<open>0\<close>. The response's status is not looked at.
\<close>

definition scrobble_track ::
  "builtins \<Rightarrow> scrobbler \<Rightarrow> world \<Rightarrow> string \<Rightarrow> string \<Rightarrow> int option
     \<Rightarrow> (exn + pyobj) \<times> scrobbler \<times> world" where
  "scrobble_track lib self w artist title timestamp =
     (case ensure_auth lib self w of
        (Inl e, self1, w1) \<Rightarrow> (Inl e, self1, w1)
      | (Inr u, self1, w1) \<Rightarrow>
          (let ts = (case timestamp of
                       None \<Rightarrow> now w1
                     | Some t \<Rightarrow> if t \<noteq> 0 then t else now w1);
               params = [(''method'', PyStr ''track.scrobble''), (''api_key'', PyStr API_KEY),
                         (''sk'', session_key self1), (''artist'', PyStr artist),
                         (''track'', PyStr title), (''timestamp'', PyStr (str_int ts))];
               params = AList.update ''api_sig'' (PyStr (signature_of lib params)) params;
               params = AList.update ''format'' (PyStr ''json'') params;
               (response, w2) = http_request (POST, params) w1
           in case response of
                NoResponse \<Rightarrow> (Inl ConnectionError, self1, w2)
              | Response status body \<Rightarrow> (response_json body, self1, w2)))"

text \<open>An event of the play history: the dictionary with keys \<^verbatim>\<open>artist\<close>, \<^verbatim>\<open>track\<close>, \<^verbatim>\<open>timestamp\<close>.\<close>

record scrobble =
  artist :: string
  track :: string
  timestamp :: int

text \<open>The \<^verbatim>\<open>for idx, scrobble in enumerate(scrobbles)\<close> loop of \<^verbatim>\<open>scrobble_tracks\<close>.\<close>

definition add_scrobble :: "nat \<Rightarrow> scrobble \<Rightarrow> pydict \<Rightarrow> pydict" where
  "add_scrobble idx s params =
     (let i = str_nat idx;
          params = AList.update (''artist['' @ i @ '']'') (PyStr (artist s)) params;
          params = AList.update (''track['' @ i @ '']'') (PyStr (track s)) params;
          params = AList.update (''timestamp['' @ i @ '']'') (PyStr (str_int (timestamp s))) params
      in params)"

fun add_scrobbles :: "nat \<Rightarrow> scrobble list \<Rightarrow> pydict \<Rightarrow> pydict" where
  "add_scrobbles idx [] params = params"
| "add_scrobbles idx (s # ss) params = add_scrobbles (Suc idx) ss (add_scrobble idx s params)"

definition scrobble_tracks ::
  "builtins \<Rightarrow> scrobbler \<Rightarrow> world \<Rightarrow> scrobble list \<Rightarrow> (exn + pyobj) \<times> scrobbler \<times> world" where
  "scrobble_tracks lib self w scrobbles =
     (case ensure_auth lib self w of
        (Inl e, self1, w1) \<Rightarrow> (Inl e, self1, w1)
      | (Inr u, self1, w1) \<Rightarrow>
          (let params = [(''method'', PyStr ''track.scrobble''), (''api_key'', PyStr API_KEY),
                         (''sk'', session_key self1)];
               params = add_scrobbles 0 scrobbles params;
               params = AList.update ''api_sig'' (PyStr (signature_of lib params)) params;
               params = AList.update ''format'' (PyStr ''json'') params;
               (response, w2) = http_request (POST, params) w1
           in case response of
                NoResponse \<Rightarrow> (Inl ConnectionError, self1, w2)
              | Response status body \<Rightarrow>
                  (case raise_for_status status of
                     Inl e \<Rightarrow> (Inl e, self1, w2)
                   | Inr u \<Rightarrow> (response_json body, self1, w2))))"

section \<open>Batches\<close>

text \<open>
  A \<^verbatim>\<open>datetime\<close> is held as the number \<^verbatim>\<open>.timestamp()\<close> returns for it. Every
  \<^verbatim>\<open>datetime\<close> object is true, so \<^verbatim>\<open>if start_date\<close> tests for \<^verbatim>\<open>None\<close>.
\<close>

datatype datetime = Datetime rat

fun dt_timestamp :: "datetime \<Rightarrow> rat" where
  "dt_timestamp (Datetime t) = t"

definition base_timestamp :: "world \<Rightarrow> datetime option \<Rightarrow> int" where
  "base_timestamp w start_date =
     (case start_date of
        Some d \<Rightarrow> py_trunc (dt_timestamp d)
      | None \<Rightarrow> now w)"

definition track_duration :: int where
  "track_duration = 180"

definition batch_size :: nat where
  "batch_size = 50"

text \<open>
  \<^verbatim>\<open>[base_timestamp - (i * track_duration) for i in range(count)]\<close>, then \<^verbatim>\<open>sort()\<close>;
  \<^verbatim>\<open>range(count)\<close> is empty for \<open>count \<le> 0\<close>.
\<close>

definition timestamps :: "int \<Rightarrow> int \<Rightarrow> int list" where
  "timestamps base cnt = sort (map (\<lambda>i. base - i * track_duration) [0..cnt - 1])"

definition make_scrobbles :: "string \<Rightarrow> string \<Rightarrow> int list \<Rightarrow> scrobble list" where
  "make_scrobbles a t tss = map (\<lambda>ts. \<lparr>artist = a, track = t, timestamp = ts\<rparr>) tss"

text \<open>
  \<^verbatim>\<open>result.get('scrobbles', {}).get('@attr', {}).get('accepted', 0)\<close> and the \<^verbatim>\<open>int\<close>
  applied to it on the next line.
\<close>

definition accepted_count :: "builtins \<Rightarrow> pyobj \<Rightarrow> exn + int" where
  "accepted_count lib result =
     (case py_get result ''scrobbles'' (PyDict []) of
        Inl e \<Rightarrow> Inl e
      | Inr s \<Rightarrow>
          (case py_get s ''@attr'' (PyDict []) of
             Inl e \<Rightarrow> Inl e
           | Inr a \<Rightarrow>
               (case py_get a ''accepted'' (PyInt 0) of
                  Inl e \<Rightarrow> Inl e
                | Inr accepted \<Rightarrow> py_int lib accepted)))"

text \<open>\<^verbatim>\<open>time.sleep(n)\<close>.\<close>

definition sleep :: "nat \<Rightarrow> world \<Rightarrow> world" where
  "sleep n w = w\<lparr>clock := clock w + of_nat n, slept := slept w + n\<rparr>"

text \<open>
  The state of the \<^verbatim>\<open>for\<close> loop of \<^verbatim>\<open>batch_scrobble\<close>. \<^verbatim>\<open>submitted\<close> is a trace the
  source does not keep: one entry per call of \<^verbatim>\<open>scrobble_tracks\<close>, with the batch passed,
  what the call returned or raised, and what the \<^verbatim>\<open>try\<close> block as a whole came to
  (\<^verbatim>\<open>Inr n\<close> when \<^verbatim>\<open>n\<close> was added to \<^verbatim>\<open>success_count\<close>, \<^verbatim>\<open>Inl e\<close> when \<^verbatim>\<open>e\<close> was caught).
\<close>

record submission =
  batch :: "scrobble list"
  response :: "exn + pyobj"
  accepted :: "exn + int"

record run =
  run_self :: scrobbler
  run_world :: world
  success_count :: int
  submitted :: "submission list"

text \<open>One iteration: the \<^verbatim>\<open>try\<close> block, its handler, and the pause.\<close>

definition batch_step :: "builtins \<Rightarrow> int \<Rightarrow> run \<Rightarrow> scrobble list \<Rightarrow> run" where
  "batch_step lib cnt st b =
     (let (result, self1, w1) = scrobble_tracks lib (run_self st) (run_world st) b;
          acc = (case result of Inl e \<Rightarrow> Inl e | Inr j \<Rightarrow> accepted_count lib j);
          (n, w2) = (case acc of
                       Inl e \<Rightarrow> (success_count st, log_error ''Batch failed'' e w1)
                     | Inr a \<Rightarrow> (success_count st + a, log_info (success_count st + a) cnt w1))
      in \<lparr>run_self = self1, run_world = sleep 1 w2, success_count = n,
          submitted = submitted st @ [\<lparr>batch = b, response = result, accepted = acc\<rparr>]\<rparr>)"

text \<open>
  \<^verbatim>\<open>for i in range(0, len(scrobbles), batch_size)\<close> with
  \<^verbatim>\<open>batch = scrobbles[i:i + batch_size]\<close>.
\<close>

function batch_loop :: "builtins \<Rightarrow> int \<Rightarrow> scrobble list \<Rightarrow> nat \<Rightarrow> run \<Rightarrow> run" where
  "batch_loop lib cnt scrobbles i st =
     (if i < length scrobbles
      then batch_loop lib cnt scrobbles (i + batch_size)
             (batch_step lib cnt st (take batch_size (drop i scrobbles)))
      else st)"
  by pat_completeness auto
termination
  by (relation "measure (\<lambda>(lib, cnt, scrobbles, i, st). length scrobbles - i)")
    (auto simp: batch_size_def)

declare batch_loop.simps [simp del]

text \<open>\<^verbatim>\<open>batch_scrobble\<close> returns the \<^verbatim>\<open>success_count\<close> of the final state.\<close>

definition batch_scrobble ::
  "builtins \<Rightarrow> scrobbler \<Rightarrow> world \<Rightarrow> string \<Rightarrow> string \<Rightarrow> int \<Rightarrow> datetime option \<Rightarrow> run" where
  "batch_scrobble lib self w a t cnt start_date =
     (let base = base_timestamp w start_date;
          scrobbles = make_scrobbles a t (timestamps base cnt)
      in batch_loop lib cnt scrobbles 0
           \<lparr>run_self = self, run_world = w, success_count = 0, submitted = []\<rparr>)"

section \<open>The prompt loop's repetition count\<close>

text \<open>
  Lines 192 and 193 of \<^verbatim>\<open>main\<close>: the line read is converted by \<^verbatim>\<open>int\<close>, which may raise
  \<^verbatim>\<open>ValueError\<close>, and the number is clamped by \<^verbatim>\<open>min(1000, max(1, count))\<close>. The result
  is the \<^verbatim>\<open>count\<close> handed to \<^verbatim>\<open>batch_scrobble\<close> on line 203.
\<close>

definition clamp_count :: "int \<Rightarrow> int" where
  "clamp_count n = min 1000 (max 1 n)"

definition read_count :: "builtins \<Rightarrow> string \<Rightarrow> exn + int" where
  "read_count lib line =
     (case py_int lib (PyStr line) of
        Inl e \<Rightarrow> Inl e
      | Inr n \<Rightarrow> Inr (clamp_count n))"

section \<open>Notions used in the statements\<close>

text \<open>What a submission added to \<^verbatim>\<open>success_count\<close>: nothing when its \<^verbatim>\<open>try\<close> block raised.\<close>

definition added :: "submission \<Rightarrow> int" where
  "added s = (case accepted s of Inl e \<Rightarrow> 0 | Inr n \<Rightarrow> n)"

text \<open>
  The field \<^verbatim>\<open>scrobbles.@attr.accepted\<close> of a response, when the response is an object
  that has it.
\<close>

definition nested_accepted :: "pyobj \<Rightarrow> pyobj option" where
  "nested_accepted result =
     (case result of
        PyDict d \<Rightarrow>
          (case map_of d ''scrobbles'' of
             Some (PyDict s) \<Rightarrow>
               (case map_of s ''@attr'' of
                  Some (PyDict a) \<Rightarrow> map_of a ''accepted''
                | _ \<Rightarrow> None)
           | _ \<Rightarrow> None)
      | _ \<Rightarrow> None)"

text \<open>
  Library functions for the concrete instances: the digest is the identity, so that the
  signed string stays visible, and no string converts to an integer.
\<close>

definition stub_lib :: builtins where
  "stub_lib = \<lparr>repr_of = (\<lambda>v. ''?''), int_of_str = (\<lambda>s. None), md5_hexdigest = (\<lambda>s. s)\<rparr>"

text \<open>
  What \<^verbatim>\<open>scrobble_tracks\<close> returns or raises for the outcome of its POST, and what the
  loop then adds to \<^verbatim>\<open>success_count\<close>.
\<close>

definition reply_result :: "http_outcome \<Rightarrow> exn + pyobj" where
  "reply_result out =
     (case out of
        NoResponse \<Rightarrow> Inl ConnectionError
      | Response status body \<Rightarrow>
          (case raise_for_status status of Inl e \<Rightarrow> Inl e | Inr u \<Rightarrow> response_json body))"

definition reply_added :: "builtins \<Rightarrow> http_outcome \<Rightarrow> int" where
  "reply_added lib out =
     (case reply_result out of
        Inl e \<Rightarrow> 0
      | Inr j \<Rightarrow> (case accepted_count lib j of Inl e \<Rightarrow> 0 | Inr n \<Rightarrow> n))"

text \<open>
  The loop state of a run whose session is \<open>self\<close> and whose server follows a script,
  \<open>n0\<close> requests having been sent before the run.
\<close>

definition scripted :: "builtins \<Rightarrow> scrobbler \<Rightarrow> (nat \<Rightarrow> http_outcome) \<Rightarrow> nat \<Rightarrow> run \<Rightarrow> bool" where
  "scripted lib self script n0 st \<longleftrightarrow>
     run_self st = self \<and>
     server (run_world st) = (\<lambda>n r. script n) \<and>
     length (sent (run_world st)) = n0 + length (submitted st) \<and>
     map response (submitted st) =
       map (\<lambda>k. reply_result (script (n0 + k))) [0..<length (submitted st)] \<and>
     success_count st =
       sum_list (map (\<lambda>k. reply_added lib (script (n0 + k))) [0..<length (submitted st)])"

text \<open>
  The loop's bookkeeping: \<^verbatim>\<open>success_count\<close> is the sum of what the submissions added, and
  each \<^verbatim>\<open>try\<close> block came to the accepted count of its response when the call returned
  one, and to the exception of the call otherwise.
\<close>

definition accounted :: "builtins \<Rightarrow> run \<Rightarrow> bool" where
  "accounted lib st \<longleftrightarrow>
     success_count st = sum_list (map added (submitted st)) \<and>
     list_all (\<lambda>s. accepted s = (case response s of Inl e \<Rightarrow> Inl e | Inr j \<Rightarrow> accepted_count lib j))
       (submitted st)"


text \<open>
  A world for the concrete instances: a stored session exists, and the server answers the
  \<open>n\<close>-th request with \<open>script n\<close>, whatever the request holds.
\<close>

definition scripted_world :: "(nat \<Rightarrow> http_outcome) \<Rightarrow> world" where
  "scripted_world script =
     \<lparr>cred_file = Content (Some (PyDict [(''session_key'', PyStr ''s3ss10n'')])),
      cred_writable = True, server = (\<lambda>n r. script n), sent = [], stdin = [], stdout = [],
      browser = [], logged = [], clock = 1700000000, slept = 0\<rparr>"

definition live_scrobbler :: scrobbler where
  "live_scrobbler = \<lparr>session_key = PyStr ''s3ss10n''\<rparr>"

section \<open>Loading the stored credential\<close>

lemma load_session_value:
  "fst (load_session w) =
     (case cred_file w of
        Content (Some (PyDict d)) \<Rightarrow>
          (case map_of d ''session_key'' of Some v \<Rightarrow> v | None \<Rightarrow> PyNone)
      | _ \<Rightarrow> PyNone)"
proof (cases "cred_file w")
  case Absent
  then show ?thesis by (simp add: load_session_def load_session_try_def)
next
  case Unreadable
  then show ?thesis by (simp add: load_session_def load_session_try_def)
next
  case (Content body)
  show ?thesis
  proof (cases body)
    case None
    with Content show ?thesis by (simp add: load_session_def load_session_try_def)
  next
    case (Some data)
    with Content show ?thesis
      by (cases data)
        (auto simp: load_session_def load_session_try_def split: option.splits bool.splits)
  qed
qed

lemma init_session_key: "session_key (fst (init w)) = fst (load_session w)"
  by (simp add: init_def split: prod.splits)

text \<open>
  C10. \<^verbatim>\<open>load_session\<close> returns a value in every state of the credentials file: the
  stored key when the file holds a JSON object with the key \<^verbatim>\<open>session_key\<close>, and \<^verbatim>\<open>None\<close>
  when the file is absent, unreadable, not JSON, or JSON without that field (an exception
  raised in the \<^verbatim>\<open>try\<close> block is caught and turned into \<^verbatim>\<open>None\<close>). The constructor
  stores exactly that value as \<^verbatim>\<open>session_key\<close>.
\<close>

theorem load_session_total:
  "fst (load_session w) =
     (case cred_file w of
        Content (Some (PyDict d)) \<Rightarrow>
          (case map_of d ''session_key'' of Some v \<Rightarrow> v | None \<Rightarrow> PyNone)
      | _ \<Rightarrow> PyNone)
   \<and> session_key (fst (init w)) = fst (load_session w)
   \<and> (case load_session_try w of
        Inl e \<Rightarrow> fst (load_session w) = PyNone
      | Inr None \<Rightarrow> fst (load_session w) = PyNone
      | Inr (Some v) \<Rightarrow> fst (load_session w) = v)"
proof -
  have "case load_session_try w of
          Inl e \<Rightarrow> fst (load_session w) = PyNone
        | Inr None \<Rightarrow> fst (load_session w) = PyNone
        | Inr (Some v) \<Rightarrow> fst (load_session w) = v"
    by (simp add: load_session_def split: sum.splits option.splits)
  with load_session_value [of w] init_session_key [of w] show ?thesis
    by blast
qed

section \<open>The repetition count\<close>

text \<open>
  C5. Whatever integer the user enters, the count that reaches \<^verbatim>\<open>batch_scrobble\<close> is
  \<^verbatim>\<open>min(1000, max(1, input))\<close>: it lies between 1 and 1000, an input above 1000 becomes
  1000 and an input below 1 becomes 1, as 5000 and 0 show.
\<close>

theorem clamp_count_range:
  "clamp_count n = (if 1000 < n then 1000 else if n < 1 then 1 else n)
   \<and> 1 \<le> clamp_count n \<and> clamp_count n \<le> 1000
   \<and> clamp_count 5000 = 1000 \<and> clamp_count 0 = 1
   \<and> read_count lib line =
       (case int_of_str lib line of
          None \<Rightarrow> Inl ValueError
        | Some k \<Rightarrow> Inr (min 1000 (max 1 k)))"
  by (simp add: clamp_count_def read_count_def split: option.splits)

section \<open>Request signatures\<close>

lemma fst_get_signature:
  "fst (get_signature lib h r) =
     md5_hexdigest lib (join_sorted lib (AList.delete ''format'' (h ! r)) @ API_SECRET)"
  by (simp add: get_signature_def dict_copy_def dict_pop_def Let_def)

lemma snd_get_signature:
  "snd (get_signature lib h r) = h @ [AList.delete ''format'' (h ! r)]"
  by (simp add: get_signature_def dict_copy_def dict_pop_def Let_def)

lemma sorted_keys_delete:
  assumes "distinct (map fst d)"
  shows "sort (map fst (AList.delete k d)) = sorted_list_of_set (fst ` set d - {k})"
proof -
  have d: "distinct (removeAll k (map fst d))"
    using assms by (simp add: distinct_removeAll)
  have "sorted_list_of_set (set (removeAll k (map fst d))) =
        sort (remdups (removeAll k (map fst d)))"
    by (rule sorted_list_of_set_sort_remdups)
  also have "\<dots> = sort (removeAll k (map fst d))"
    using d by (simp only: distinct_remdups_id)
  finally have "sort (removeAll k (map fst d)) =
        sorted_list_of_set (set (removeAll k (map fst d)))"
    by (rule sym)
  also have "set (removeAll k (map fst d)) = fst ` set d - {k}"
    by simp
  finally show ?thesis
    by (simp only: delete_keys)
qed

lemma join_sorted_delete:
  assumes "distinct (map fst d)"
  shows "join_sorted lib (AList.delete k d) =
     concat (map (\<lambda>k'. k' @ py_str lib (the (map_of d k')))
       (sorted_list_of_set (fst ` set d - {k})))"
proof -
  have "map (\<lambda>k'. k' @ py_str lib (the (map_of (AList.delete k d) k')))
          (sorted_list_of_set (fst ` set d - {k})) =
        map (\<lambda>k'. k' @ py_str lib (the (map_of d k')))
          (sorted_list_of_set (fst ` set d - {k}))"
    by (rule map_cong) (auto simp: delete_conv')
  then show ?thesis
    unfolding join_sorted_def sorted_keys_delete [OF assms] by (rule arg_cong)
qed

lemma signature_canonical:
  assumes "distinct (map fst (h ! r))"
  shows "fst (get_signature lib h r) =
     md5_hexdigest lib
       (concat (map (\<lambda>k. k @ py_str lib (the (map_of (h ! r) k)))
          (sorted_list_of_set (fst ` set (h ! r) - {''format''}))) @ API_SECRET)"
  using assms by (simp add: fst_get_signature join_sorted_delete)

lemma delete_update_same: "AList.delete k (AList.update k v d) = AList.delete k d"
  by (induction d) auto

lemma delete_delete_same: "AList.delete k (AList.delete k d) = AList.delete k d"
  by (simp add: AList.delete_eq)

text \<open>
  C3. For a dictionary \<open>m\<close> (the object at \<open>r\<close>), the signature is the digest of the
  string made of key followed by value for the keys of \<open>m\<close> other than \<^verbatim>\<open>format\<close>, in
  sorted order and with nothing between them, followed by the shared secret. The
  \<^verbatim>\<open>format\<close> entry is dropped by \<^verbatim>\<open>get_signature\<close> itself: the same dictionary with the
  entry set, or with the entry removed, has the same signature.
\<close>

theorem get_signature_spec:
  assumes "r < length h" and "distinct (map fst (h ! r))"
  shows "fst (get_signature lib h r) =
       md5_hexdigest lib
         (concat (map (\<lambda>k. k @ py_str lib (the (map_of (h ! r) k)))
            (sorted_list_of_set (fst ` set (h ! r) - {''format''}))) @ API_SECRET)
     \<and> fst (get_signature lib (h[r := AList.update ''format'' v (h ! r)]) r) =
       fst (get_signature lib h r)
     \<and> fst (get_signature lib (h[r := AList.delete ''format'' (h ! r)]) r) =
       fst (get_signature lib h r)"
proof -
  have "fst (get_signature lib h r) =
       md5_hexdigest lib
         (concat (map (\<lambda>k. k @ py_str lib (the (map_of (h ! r) k)))
            (sorted_list_of_set (fst ` set (h ! r) - {''format''}))) @ API_SECRET)"
    using assms(2) by (rule signature_canonical)
  moreover have "fst (get_signature lib (h[r := AList.update ''format'' v (h ! r)]) r) =
       fst (get_signature lib h r)"
    using assms(1) by (simp add: fst_get_signature delete_update_same)
  moreover have "fst (get_signature lib (h[r := AList.delete ''format'' (h ! r)]) r) =
       fst (get_signature lib h r)"
    using assms(1) by (simp add: fst_get_signature delete_delete_same)
  ultimately show ?thesis
    by blast
qed

theorem get_signature_spec_witness:
  "fst (get_signature stub_lib
      [[(''method'', PyStr ''auth.getSession''), (''format'', PyStr ''json''),
        (''api_key'', PyStr ''k'')]] 0) =
     ''api_keykmethodauth.getSession'' @ API_SECRET
   \<and> fst (get_signature stub_lib
      [[(''method'', PyStr ''auth.getSession''), (''api_key'', PyStr ''k'')]] 0) =
     ''api_keykmethodauth.getSession'' @ API_SECRET"
  using get_signature_spec [of 0
      "[[(''method'', PyStr ''auth.getSession''), (''format'', PyStr ''json''),
         (''api_key'', PyStr ''k'')]]" stub_lib]
  by (simp add: fst_get_signature join_sorted_def stub_lib_def)

text \<open>
  C6. Two dictionaries with the same key-value pairs have the same signature, whatever
  the order in which the pairs were inserted.
\<close>

theorem get_signature_order_independent:
  assumes "distinct (map fst (h1 ! r1))" and "distinct (map fst (h2 ! r2))"
    and "set (h1 ! r1) = set (h2 ! r2)"
  shows "fst (get_signature lib h1 r1) = fst (get_signature lib h2 r2)"
proof -
  have "map_of (h1 ! r1) = map_of (h2 ! r2)"
    using assms by (simp add: map_of_inject_set)
  with assms(3) show ?thesis
    using assms(1,2) by (simp add: signature_canonical)
qed

theorem get_signature_order_independent_witness:
  "fst (get_signature stub_lib [[(''sk'', PyStr ''s''), (''api_key'', PyStr ''k'')]] 0) =
   fst (get_signature stub_lib [[(''api_key'', PyStr ''k''), (''sk'', PyStr ''s'')]] 0)"
  using get_signature_order_independent [of
      "[[(''sk'', PyStr ''s''), (''api_key'', PyStr ''k'')]]" 0
      "[[(''api_key'', PyStr ''k''), (''sk'', PyStr ''s'')]]" 0 stub_lib]
  by auto

text \<open>
  C9. \<^verbatim>\<open>get_signature\<close> leaves its argument as it was: the object at \<open>r\<close> is the same
  dictionary after the call, its \<^verbatim>\<open>format\<close> entry included, and so is every other object
  that existed before; the only change to the store is the copy made inside.
\<close>

theorem get_signature_frame:
  assumes "r < length h"
  shows "snd (get_signature lib h r) ! r = h ! r
     \<and> map_of (snd (get_signature lib h r) ! r) ''format'' = map_of (h ! r) ''format''
     \<and> take (length h) (snd (get_signature lib h r)) = h"
  using assms by (simp add: snd_get_signature nth_append)

theorem get_signature_frame_witness:
  "snd (get_signature stub_lib
      [[(''method'', PyStr ''m''), (''format'', PyStr ''json'')]] 0) ! 0 =
     [(''method'', PyStr ''m''), (''format'', PyStr ''json'')]"
  using get_signature_frame [of 0 "[[(''method'', PyStr ''m''), (''format'', PyStr ''json'')]]"
      stub_lib]
  by simp

section \<open>The batch loop\<close>

lemma submitted_batch_step:
  "\<exists>s. submitted (batch_step lib cnt st b) = submitted st @ [s] \<and> batch s = b
     \<and> accepted s = (case response s of Inl e \<Rightarrow> Inl e | Inr j \<Rightarrow> accepted_count lib j)
     \<and> success_count (batch_step lib cnt st b) = success_count st + added s"
proof -
  obtain result self1 w1 where r: "scrobble_tracks lib (run_self st) (run_world st) b = (result, self1, w1)"
    by (cases "scrobble_tracks lib (run_self st) (run_world st) b") auto
  define acc where "acc = (case result of Inl e \<Rightarrow> Inl e | Inr j \<Rightarrow> accepted_count lib j)"
  let ?s = "\<lparr>batch = b, response = result, accepted = acc\<rparr>"
  have 1: "submitted (batch_step lib cnt st b) = submitted st @ [?s]"
    by (cases acc) (simp_all add: batch_step_def r acc_def [symmetric])
  have 2: "success_count (batch_step lib cnt st b) = success_count st + added ?s"
    by (cases acc) (simp_all add: batch_step_def r acc_def [symmetric] added_def)
  have 3: "accepted ?s = (case response ?s of Inl e \<Rightarrow> Inl e | Inr j \<Rightarrow> accepted_count lib j)"
    by (simp add: acc_def)
  from 1 2 3 show ?thesis
    by (intro exI [of _ ?s]) simp
qed

lemma batches_batch_step:
  "map batch (submitted (batch_step lib cnt st b)) = map batch (submitted st) @ [b]"
  using submitted_batch_step [of lib cnt st b] by auto

lemma batch_loop_step:
  "i < length xs \<Longrightarrow>
   batch_loop lib cnt xs i st =
     batch_loop lib cnt xs (i + batch_size) (batch_step lib cnt st (take batch_size (drop i xs)))"
  by (subst batch_loop.simps) simp

lemma batch_loop_stop: "\<not> i < length xs \<Longrightarrow> batch_loop lib cnt xs i st = st"
  by (subst batch_loop.simps) simp

lemma batch_loop_invariant:
  assumes "P st" and "\<And>st b. P st \<Longrightarrow> P (batch_step lib cnt st b)"
  shows "P (batch_loop lib cnt xs i st)"
  using assms
proof (induction lib cnt xs i st rule: batch_loop.induct)
  case (1 lib cnt scrobbles i st)
  show ?case
  proof (cases "i < length scrobbles")
    case True
    have "P (batch_step lib cnt st (take batch_size (drop i scrobbles)))"
      using "1.prems"(1) by (rule "1.prems"(2))
    then have "P (batch_loop lib cnt scrobbles (i + batch_size)
                    (batch_step lib cnt st (take batch_size (drop i scrobbles))))"
      using "1.prems"(2) by (rule "1.IH" [OF True])
    then show ?thesis
      by (simp only: batch_loop_step [OF True])
  next
    case False
    show ?thesis
      using "1.prems"(1) by (simp only: batch_loop_stop [OF False])
  qed
qed

lemma slices_Suc:
  "map (\<lambda>k. take 50 (drop (i + 50 * k) xs)) [0..<Suc n] =
   take 50 (drop i xs) # map (\<lambda>k. take 50 (drop (i + 50 + 50 * k) xs)) [0..<n]"
  by (simp add: map_upt_Suc add.assoc del: upt_Suc)

lemma slices_count:
  "i < (l::nat) \<Longrightarrow> (l - i + 49) div 50 = Suc ((l - (i + 50) + 49) div 50)"
  by (cases "i + 50 \<le> l") (simp_all add: div_add_self1 div_add_self2 le_Suc_ex)

lemma slices_Cons:
  assumes "i < length xs"
  shows "map (\<lambda>k. take 50 (drop (i + 50 * k) xs)) [0..<(length xs - i + 49) div 50] =
     take 50 (drop i xs) #
     map (\<lambda>k. take 50 (drop (i + 50 + 50 * k) xs)) [0..<(length xs - (i + 50) + 49) div 50]"
  by (simp only: slices_count [OF assms] slices_Suc)

lemma slices_Nil:
  assumes "\<not> i < length xs"
  shows "map (\<lambda>k. take 50 (drop (i + 50 * k) xs)) [0..<(length xs - i + 49) div 50] = []"
proof -
  have "(length xs - i + 49) div 50 = 0"
    using assms by simp
  then show ?thesis
    by simp
qed

lemma batch_loop_batches:
  "map batch (submitted (batch_loop lib cnt xs i st)) =
     map batch (submitted st) @
     map (\<lambda>k. take 50 (drop (i + 50 * k) xs)) [0..<(length xs - i + 49) div 50]"
proof (induction lib cnt xs i st rule: batch_loop.induct)
  case (1 lib cnt xs i st)
  show ?case
  proof (cases "i < length xs")
    case True
    let ?st = "batch_step lib cnt st (take 50 (drop i xs))"
    have "map batch (submitted (batch_loop lib cnt xs i st)) =
          map batch (submitted (batch_loop lib cnt xs (i + 50) ?st))"
      by (simp only: batch_loop_step [OF True] batch_size_def)
    also have "\<dots> = map batch (submitted ?st) @
          map (\<lambda>k. take 50 (drop (i + 50 + 50 * k) xs)) [0..<(length xs - (i + 50) + 49) div 50]"
      using "1.IH" [OF True] by (simp only: batch_size_def)
    also have "\<dots> = map batch (submitted st) @
          map (\<lambda>k. take 50 (drop (i + 50 * k) xs)) [0..<(length xs - i + 49) div 50]"
      by (simp only: batches_batch_step slices_Cons [OF True] append_assoc append_Cons append_Nil)
    finally show ?thesis .
  next
    case False
    show ?thesis
      by (simp only: batch_loop_stop [OF False] slices_Nil [OF False] append_Nil2)
  qed
qed

lemma slice_drop: "take 50 (drop i xs) @ drop (i + 50) xs = drop i xs"
  by (metis add.commute append_take_drop_id drop_drop)

lemma batch_loop_concat:
  "concat (map batch (submitted (batch_loop lib cnt xs i st))) =
     concat (map batch (submitted st)) @ drop i xs"
proof (induction lib cnt xs i st rule: batch_loop.induct)
  case (1 lib cnt xs i st)
  show ?case
  proof (cases "i < length xs")
    case True
    let ?st = "batch_step lib cnt st (take 50 (drop i xs))"
    have "concat (map batch (submitted (batch_loop lib cnt xs i st))) =
          concat (map batch (submitted (batch_loop lib cnt xs (i + 50) ?st)))"
      by (simp only: batch_loop_step [OF True] batch_size_def)
    also have "\<dots> = concat (map batch (submitted ?st)) @ drop (i + 50) xs"
      using "1.IH" [OF True] by (simp only: batch_size_def)
    also have "\<dots> = concat (map batch (submitted st)) @ (take 50 (drop i xs) @ drop (i + 50) xs)"
      by (simp add: batches_batch_step)
    finally show ?thesis
      by (simp only: slice_drop)
  next
    case False
    then have "drop i xs = []"
      by simp
    then show ?thesis
      by (simp add: batch_loop_stop [OF False])
  qed
qed

section \<open>Generated timestamps\<close>

lemma timestamps_rev:
  "timestamps base cnt = rev (map (\<lambda>i. base - i * 180) [0..cnt - 1])"
proof -
  let ?xs = "map (\<lambda>i. base - i * 180) [0..cnt - 1]"
  have "sorted_wrt (\<lambda>i j. base - j * 180 \<le> base - i * 180) [0..cnt - 1]"
    by (rule sorted_wrt_mono_rel [OF _ sorted_wrt_upto]) simp
  then have "sorted (rev ?xs)"
    by (simp add: sorted_wrt_rev sorted_wrt_map)
  moreover have "mset (rev ?xs) = mset ?xs"
    by simp
  ultimately have "sort ?xs = rev ?xs"
    by (rule properties_for_sort [rotated])
  then show ?thesis
    by (simp add: timestamps_def track_duration_def)
qed

lemma length_timestamps: "length (timestamps base cnt) = nat cnt"
  by (simp add: timestamps_rev)

lemma nth_timestamps:
  assumes "j < nat cnt"
  shows "timestamps base cnt ! j = base - (cnt - 1 - int j) * 180"
proof -
  let ?k = "nat cnt - Suc j"
  have k: "int ?k = cnt - 1 - int j" "?k < nat cnt"
    using assms by auto
  have "timestamps base cnt ! j = map (\<lambda>i. base - i * 180) [0..cnt - 1] ! ?k"
    using assms by (simp add: timestamps_rev rev_nth)
  also have "\<dots> = base - ([0..cnt - 1] ! ?k) * 180"
    using k by simp
  also have "[0..cnt - 1] ! ?k = 0 + int ?k"
    using k by (intro nth_upto) simp
  finally show ?thesis
    using k by simp
qed

lemma timestamps_example: "timestamps 1000 3 = [640, 820, 1000]"
  by code_simp

text \<open>
  C2. For a count of at least 1, the generated timestamps are the \<open>count\<close> numbers
  \<open>base - i * 180\<close> for \<open>i\<close> from 0 to \<open>count - 1\<close>, in ascending order: neighbours
  differ by exactly 180, the sequence is strictly increasing and its last element is the
  base, which is the start time when one is given and the clock otherwise. These are the
  timestamps of the events that \<^verbatim>\<open>batch_scrobble\<close> submits, in this order.
\<close>

theorem batch_timestamps:
  assumes "1 \<le> cnt"
  shows "length (timestamps base cnt) = nat cnt
     \<and> mset (timestamps base cnt) = mset (map (\<lambda>i. base - i * 180) [0..cnt - 1])
     \<and> (\<forall>j. Suc j < nat cnt \<longrightarrow>
          timestamps base cnt ! Suc j - timestamps base cnt ! j = 180)
     \<and> sorted_wrt (<) (timestamps base cnt)
     \<and> last (timestamps base cnt) = base
     \<and> map timestamp
          (concat (map batch (submitted (batch_scrobble lib self w a t cnt start_date)))) =
        timestamps (base_timestamp w start_date) cnt
     \<and> base_timestamp w start_date =
        (case start_date of Some d \<Rightarrow> py_trunc (dt_timestamp d) | None \<Rightarrow> py_trunc (clock w))"
proof -
  have len: "length (timestamps base cnt) = nat cnt"
    by (rule length_timestamps)
  have elems: "mset (timestamps base cnt) = mset (map (\<lambda>i. base - i * 180) [0..cnt - 1])"
    by (simp add: timestamps_rev)
  have step: "\<forall>j. Suc j < nat cnt \<longrightarrow>
      timestamps base cnt ! Suc j - timestamps base cnt ! j = 180"
    by (simp add: nth_timestamps)
  have incr: "sorted_wrt (<) (timestamps base cnt)"
    unfolding sorted_wrt_iff_nth_less by (simp add: len nth_timestamps)
  have "timestamps base cnt \<noteq> []"
    using assms len by auto
  then have "last (timestamps base cnt) = timestamps base cnt ! (nat cnt - 1)"
    by (simp add: last_conv_nth len)
  also have "\<dots> = base"
    using assms by (simp add: nth_timestamps)
  finally have lst: "last (timestamps base cnt) = base" .
  have sub: "map timestamp
      (concat (map batch (submitted (batch_scrobble lib self w a t cnt start_date)))) =
      timestamps (base_timestamp w start_date) cnt"
    by (simp add: batch_scrobble_def Let_def batch_loop_concat make_scrobbles_def comp_def)
  have bs: "base_timestamp w start_date =
      (case start_date of Some d \<Rightarrow> py_trunc (dt_timestamp d) | None \<Rightarrow> py_trunc (clock w))"
    by (simp add: base_timestamp_def now_def split: option.splits)
  from len elems step incr lst sub bs show ?thesis
    by blast
qed

theorem batch_timestamps_witness:
  "timestamps 1000 3 = [640, 820, 1000]
   \<and> length (timestamps 1000 3) = 3 \<and> last (timestamps 1000 3) = 1000
   \<and> timestamps 1000 3 ! 1 - timestamps 1000 3 ! 0 = 180
   \<and> timestamps 1000 3 ! 2 - timestamps 1000 3 ! 1 = 180"
  using batch_timestamps [of 3 1000 stub_lib live_scrobbler "scripted_world (\<lambda>n. NoResponse)"
      "''Artist A''" "''Track B''" None]
  by (simp add: timestamps_example)

section \<open>Runs against a scripted server\<close>

lemma ensure_auth_live: "truthy (session_key self) \<Longrightarrow> ensure_auth lib self w = (Inr (), self, w)"
  by (simp add: ensure_auth_def)

lemma scrobble_tracks_authed:
  assumes "ensure_auth lib self w = (Inr (), self1, w1)"
    and "\<And>r. server w1 (length (sent w1)) r = out"
  shows "fst (scrobble_tracks lib self w b) = reply_result out"
    and "fst (snd (scrobble_tracks lib self w b)) = self1"
    and "server (snd (snd (scrobble_tracks lib self w b))) = server w1"
    and "length (sent (snd (snd (scrobble_tracks lib self w b)))) = Suc (length (sent w1))"
  using assms
  by (cases out;
      simp add: scrobble_tracks_def http_request_def reply_result_def Let_def
        split: sum.splits)+

lemma scrobble_track_authed:
  assumes "ensure_auth lib self w = (Inr (), self1, w1)"
    and "\<And>r. server w1 (length (sent w1)) r = Response status body"
  shows "fst (scrobble_track lib self w a t ts) = response_json body"
  using assms
  by (simp add: scrobble_track_def http_request_def Let_def)

lemma batch_step_eq:
  assumes "scrobble_tracks lib (run_self st) (run_world st) b = (result, self1, w1)"
    and "acc = (case result of Inl e \<Rightarrow> Inl e | Inr j \<Rightarrow> accepted_count lib j)"
  shows "batch_step lib cnt st b =
     \<lparr>run_self = self1,
      run_world = sleep 1 (case acc of
                             Inl e \<Rightarrow> log_error ''Batch failed'' e w1
                           | Inr n \<Rightarrow> log_info (success_count st + n) cnt w1),
      success_count = success_count st + (case acc of Inl e \<Rightarrow> 0 | Inr n \<Rightarrow> n),
      submitted = submitted st @ [\<lparr>batch = b, response = result, accepted = acc\<rparr>]\<rparr>"
  unfolding batch_step_def assms(1) assms(2) Let_def
  by (cases "case result of Inl e \<Rightarrow> Inl e | Inr j \<Rightarrow> accepted_count lib j") simp_all

lemma batch_step_scripted:
  assumes "truthy (session_key (run_self st))"
    and "\<And>r. server (run_world st) (length (sent (run_world st))) r = out"
  shows "run_self (batch_step lib cnt st b) = run_self st"
    and "server (run_world (batch_step lib cnt st b)) = server (run_world st)"
    and "length (sent (run_world (batch_step lib cnt st b))) = Suc (length (sent (run_world st)))"
    and "map response (submitted (batch_step lib cnt st b)) =
         map response (submitted st) @ [reply_result out]"
    and "success_count (batch_step lib cnt st b) = success_count st + reply_added lib out"
proof -
  obtain result self1 w1 where
    r: "scrobble_tracks lib (run_self st) (run_world st) b = (result, self1, w1)"
    by (cases "scrobble_tracks lib (run_self st) (run_world st) b") auto
  have e: "ensure_auth lib (run_self st) (run_world st) = (Inr (), run_self st, run_world st)"
    using assms(1) by (rule ensure_auth_live)
  have f: "result = reply_result out" "self1 = run_self st" "server w1 = server (run_world st)"
    "length (sent w1) = Suc (length (sent (run_world st)))"
    using scrobble_tracks_authed [OF e assms(2), of b] by (simp_all add: r)
  define acc where "acc = (case result of Inl e \<Rightarrow> Inl e | Inr j \<Rightarrow> accepted_count lib j)"
  note eq = batch_step_eq [OF r acc_def, of cnt]
  have a: "reply_added lib out = (case acc of Inl e \<Rightarrow> 0 | Inr n \<Rightarrow> n)"
    by (simp add: reply_added_def acc_def f(1) split: sum.splits)
  show "run_self (batch_step lib cnt st b) = run_self st"
    by (simp add: eq f(2))
  show "server (run_world (batch_step lib cnt st b)) = server (run_world st)"
    by (cases acc) (simp_all add: eq f(3) sleep_def log_error_def log_info_def)
  show "length (sent (run_world (batch_step lib cnt st b))) = Suc (length (sent (run_world st)))"
    by (cases acc) (simp_all add: eq f(4) sleep_def log_error_def log_info_def)
  show "map response (submitted (batch_step lib cnt st b)) =
      map response (submitted st) @ [reply_result out]"
    by (simp add: eq f(1))
  show "success_count (batch_step lib cnt st b) = success_count st + reply_added lib out"
    by (simp add: eq a)
qed

lemma scripted_step:
  assumes "truthy (session_key self)" and "scripted lib self script n0 st"
  shows "scripted lib self script n0 (batch_step lib cnt st b)"
proof -
  let ?out = "script (n0 + length (submitted st))"
  have t: "truthy (session_key (run_self st))"
    using assms by (simp add: scripted_def)
  have o: "\<And>r. server (run_world st) (length (sent (run_world st))) r = ?out"
    using assms(2) by (simp add: scripted_def)
  have l: "length (submitted (batch_step lib cnt st b)) = Suc (length (submitted st))"
    using submitted_batch_step [of lib cnt st b] by auto
  note s = batch_step_scripted [OF t o, of lib cnt b]
  show ?thesis
    using assms(2) unfolding scripted_def s l by simp
qed

section \<open>Status codes\<close>

lemma response_json_no_http: "response_json body \<noteq> Inl (HTTPError c)"
  by (simp add: response_json_def split: option.splits)

lemma py_contains_no_http: "py_contains k v \<noteq> Inl (HTTPError c)"
  by (cases v) simp_all

lemma py_getitem_no_http: "py_getitem v k \<noteq> Inl (HTTPError c)"
  by (cases v) (simp_all split: option.splits)

lemma get_token_no_http: "fst (get_token w) \<noteq> Inl (HTTPError c)"
  using response_json_no_http py_contains_no_http py_getitem_no_http
  by (auto simp: get_token_def http_request_def Let_def
      split: http_outcome.splits sum.splits bool.splits)

lemma authorize_token_no_http: "fst (authorize_token lib token w) \<noteq> Inl (HTTPError c)"
  by (simp add: authorize_token_def input_line_def Let_def split: list.splits)

lemma get_session_no_http: "fst (get_session lib token w) \<noteq> Inl (HTTPError c)"
  using response_json_no_http py_contains_no_http py_getitem_no_http
  by (auto simp: get_session_def http_request_def Let_def
      split: http_outcome.splits sum.splits bool.splits)

lemma ensure_auth_no_http: "fst (ensure_auth lib self w) \<noteq> Inl (HTTPError c)"
proof (cases "truthy (session_key self)")
  case True
  then show ?thesis
    by (simp add: ensure_auth_def)
next
  case False
  obtain r1 w1 where t: "get_token w = (r1, w1)"
    by (cases "get_token w") auto
  show ?thesis
  proof (cases r1)
    case (Inl e)
    with get_token_no_http [of w c] t False show ?thesis
      by (simp add: ensure_auth_def)
  next
    case (Inr token)
    obtain r2 w2 where a: "authorize_token lib token w1 = (r2, w2)"
      by (cases "authorize_token lib token w1") auto
    show ?thesis
    proof (cases r2)
      case (Inl e)
      with authorize_token_no_http [of lib token w1 c] a t Inr False show ?thesis
        by (simp add: ensure_auth_def)
    next
      case u: (Inr u)
      obtain r3 w3 where g: "get_session lib token w2 = (r3, w3)"
        by (cases "get_session lib token w2") auto
      with get_session_no_http [of lib token w2 c] a t Inr u False show ?thesis
        by (cases r3) (simp_all add: ensure_auth_def)
    qed
  qed
qed

lemma scrobble_track_no_http: "fst (scrobble_track lib self w a t ts) \<noteq> Inl (HTTPError c)"
proof -
  obtain r1 self1 w1 where e: "ensure_auth lib self w = (r1, self1, w1)"
    by (cases "ensure_auth lib self w") auto
  show ?thesis
  proof (cases r1)
    case (Inl x)
    with ensure_auth_no_http [of lib self w c] e show ?thesis
      by (simp add: scrobble_track_def)
  next
    case (Inr u)
    with e response_json_no_http show ?thesis
      by (simp add: scrobble_track_def http_request_def Let_def split: http_outcome.splits)
  qed
qed

lemma live_auth:
  "ensure_auth stub_lib live_scrobbler (scripted_world script) =
     (Inr (), live_scrobbler, scripted_world script)"
  by (simp add: ensure_auth_def live_scrobbler_def)

text \<open>
  C7, with the statuses that raise made exact. When authentication succeeds and the
  POST gets a response, \<^verbatim>\<open>scrobble_tracks\<close> raises \<^verbatim>\<open>HTTPError\<close> exactly when the status
  is a client or server error (400 to 599), which is when \<^verbatim>\<open>raise_for_status\<close> raises;
  for every other status it returns \<^verbatim>\<open>response.json()\<close>, that is the parsed body, or
  \<^verbatim>\<open>JSONDecodeError\<close> when the body does not parse. \<^verbatim>\<open>scrobble_track\<close> does not look at
  the status: it returns the parsed body whenever the body parses, raises
  \<^verbatim>\<open>JSONDecodeError\<close> when it does not, and never raises \<^verbatim>\<open>HTTPError\<close>, in any world.
\<close>

theorem scrobble_status_handling:
  assumes "ensure_auth lib self w = (Inr (), self1, w1)"
    and "\<And>r. server w1 (length (sent w1)) r = Response status body"
  shows "fst (scrobble_tracks lib self w b) =
       (if 400 \<le> status \<and> status < 600 then Inl (HTTPError status)
        else case body of None \<Rightarrow> Inl JSONDecodeError | Some j \<Rightarrow> Inr j)
     \<and> ((\<exists>c. fst (scrobble_tracks lib self w b) = Inl (HTTPError c)) \<longleftrightarrow>
          400 \<le> status \<and> status < 600)
     \<and> fst (scrobble_track lib self w a t ts) =
       (case body of None \<Rightarrow> Inl JSONDecodeError | Some j \<Rightarrow> Inr j)
     \<and> (\<forall>c self' w'. fst (scrobble_track lib self' w' a t ts) \<noteq> Inl (HTTPError c))"
proof -
  have j: "response_json body = (case body of None \<Rightarrow> Inl JSONDecodeError | Some j \<Rightarrow> Inr j)"
    by (simp add: response_json_def)
  have 1: "fst (scrobble_tracks lib self w b) =
       (if 400 \<le> status \<and> status < 600 then Inl (HTTPError status) else response_json body)"
    using scrobble_tracks_authed(1) [OF assms, of b]
    by (simp add: reply_result_def raise_for_status_def)
  have 2: "(\<exists>c. fst (scrobble_tracks lib self w b) = Inl (HTTPError c)) \<longleftrightarrow>
          400 \<le> status \<and> status < 600"
    using response_json_no_http [of body] by (auto simp: 1)
  have 3: "fst (scrobble_track lib self w a t ts) = response_json body"
    using assms by (rule scrobble_track_authed)
  have 4: "\<forall>c self' w'. fst (scrobble_track lib self' w' a t ts) \<noteq> Inl (HTTPError c)"
    by (simp add: scrobble_track_no_http)
  from 1 2 3 4 show ?thesis
    unfolding j by blast
qed

theorem scrobble_status_handling_witness:
  "fst (scrobble_tracks stub_lib live_scrobbler
        (scripted_world (\<lambda>n. Response 503 (Some (PyDict []))))
        [\<lparr>artist = ''Artist A'', track = ''Track B'', timestamp = 1000\<rparr>]) =
     Inl (HTTPError 503)
   \<and> fst (scrobble_track stub_lib live_scrobbler
        (scripted_world (\<lambda>n. Response 503 (Some (PyDict []))))
        ''Artist A'' ''Track B'' (Some 1000)) =
     Inr (PyDict [])"
  using scrobble_status_handling [OF live_auth,
      of "\<lambda>n. Response 503 (Some (PyDict []))" 503 "Some (PyDict [])"
         "[\<lparr>artist = ''Artist A'', track = ''Track B'', timestamp = 1000\<rparr>]"
         "''Artist A''" "''Track B''" "Some 1000"]
  by (simp add: scripted_world_def)

text \<open>
  The claim as stated, with ``non-2xx'' for the statuses that raise, fails at status 300
  with the body \<^verbatim>\<open>{}\<close>: 300 is not a 2xx status, and \<^verbatim>\<open>scrobble_tracks\<close> raises nothing and
  returns the parsed body.
\<close>

theorem scrobble_tracks_non_2xx_counterexample:
  "\<not> (200 \<le> (300::nat) \<and> (300::nat) < 300)
   \<and> fst (scrobble_tracks stub_lib live_scrobbler
        (scripted_world (\<lambda>n. Response 300 (Some (PyDict []))))
        [\<lparr>artist = ''Artist A'', track = ''Track B'', timestamp = 1000\<rparr>]) =
     Inr (PyDict [])"
  using scrobble_tracks_authed(1) [OF live_auth,
      of "\<lambda>n. Response 300 (Some (PyDict []))" "Response 300 (Some (PyDict []))"
         "[\<lparr>artist = ''Artist A'', track = ''Track B'', timestamp = 1000\<rparr>]"]
  by (simp add: scripted_world_def reply_result_def raise_for_status_def response_json_def)

section \<open>Whole runs\<close>

lemma accounted_step: "accounted lib st \<Longrightarrow> accounted lib (batch_step lib cnt st b)"
  using submitted_batch_step [of lib cnt st b] by (auto simp: accounted_def)

lemma accounted_run: "accounted lib (batch_scrobble lib self w a t cnt sd)"
  unfolding batch_scrobble_def Let_def
  by (rule batch_loop_invariant) (simp_all add: accounted_def accounted_step [unfolded accounted_def])

lemma scripted_run:
  assumes "truthy (session_key self)" and "server w = (\<lambda>n r. script n)"
  shows "scripted lib self script (length (sent w)) (batch_scrobble lib self w a t cnt sd)"
  unfolding batch_scrobble_def Let_def
proof (rule batch_loop_invariant)
  show "scripted lib self script (length (sent w))
      \<lparr>run_self = self, run_world = w, success_count = 0, submitted = []\<rparr>"
    using assms(2) by (simp add: scripted_def)
next
  fix st b
  assume "scripted lib self script (length (sent w)) st"
  with assms(1) show "scripted lib self script (length (sent w)) (batch_step lib cnt st b)"
    by (rule scripted_step)
qed

lemma length_make_scrobbles:
  "length (make_scrobbles a t (timestamps base cnt)) = nat cnt"
  by (simp add: make_scrobbles_def length_timestamps)

lemma run_batches:
  "map batch (submitted (batch_scrobble lib self w a t cnt sd)) =
     map (\<lambda>k. take 50 (drop (50 * k) (make_scrobbles a t (timestamps (base_timestamp w sd) cnt))))
       [0..<(nat cnt + 49) div 50]"
  by (simp add: batch_scrobble_def Let_def batch_loop_batches length_make_scrobbles)


lemma run_length: "length (submitted (batch_scrobble lib self w a t cnt sd)) = (nat cnt + 49) div 50"
  using arg_cong [OF run_batches, of length lib self w a t cnt sd] by simp



lemma upt_3: "[0..<3::nat] = [0, 1, 2]"
  by (simp add: upt_rec)

lemma sizes_120:
  assumes "length xs = 120"
  shows "map (\<lambda>k. length (take 50 (drop (50 * k) xs))) [0..<(nat 120 + 49) div 50] = [50, 50, 20]"
  using assms by (simp add: upt_3)





lemma reply_result_ok: "reply_result (Response 200 (Some j)) = Inr j"
  by (simp add: reply_result_def raise_for_status_def response_json_def)

lemma length_3: "length xs = 3 \<Longrightarrow> \<exists>a b c. xs = [a, b, c]"
  by (auto simp: length_Suc_conv numeral_3_eq_3)

lemma run_sizes_120:
  "map (\<lambda>s. length (batch s)) (submitted (batch_scrobble lib self w a t 120 sd)) = [50, 50, 20]"
proof -
  let ?r = "batch_scrobble lib self w a t 120 sd"
  let ?xs = "make_scrobbles a t (timestamps (base_timestamp w sd) 120)"
  have "map (\<lambda>s. length (batch s)) (submitted ?r) = map length (map batch (submitted ?r))"
    by simp
  also have "\<dots> = map (\<lambda>k. length (take 50 (drop (50 * k) ?xs))) [0..<(nat 120 + 49) div 50]"
    unfolding run_batches by (simp add: comp_def)
  also have "\<dots> = [50, 50, 20]"
    by (intro sizes_120) (simp add: length_make_scrobbles)
  finally show ?thesis .
qed



lemma run_120:
  fixes S a t
  defines "R \<equiv> batch_scrobble stub_lib live_scrobbler (scripted_world S) a t 120 None"
  shows "length (submitted R) = 3"
    and "map response (submitted R) = [reply_result (S 0), reply_result (S 1), reply_result (S 2)]"
    and "success_count R =
      reply_added stub_lib (S 0) + reply_added stub_lib (S 1) + reply_added stub_lib (S 2)"
    and "map (\<lambda>s. length (batch s)) (submitted R) = [50, 50, 20]"
proof -
  have "scripted stub_lib live_scrobbler S (length (sent (scripted_world S))) R"
    unfolding R_def by (rule scripted_run) (simp_all add: live_scrobbler_def scripted_world_def)
  then have sc: "scripted stub_lib live_scrobbler S 0 R"
    by (simp add: scripted_world_def)
  show len: "length (submitted R) = 3"
    unfolding R_def by (simp add: run_length)
  show "map response (submitted R) = [reply_result (S 0), reply_result (S 1), reply_result (S 2)]"
    using sc by (simp add: scripted_def len upt_3)
  show "success_count R =
      reply_added stub_lib (S 0) + reply_added stub_lib (S 1) + reply_added stub_lib (S 2)"
    using sc by (simp add: scripted_def len upt_3)
  show "map (\<lambda>s. length (batch s)) (submitted R) = [50, 50, 20]"
    unfolding R_def by (rule run_sizes_120)
qed

lemma lacking_accepted:
  assumes "nested_accepted j = None"
  shows "accepted_count lib j = Inr 0 \<or> accepted_count lib j = Inl AttributeError"
proof (cases j)
  case (PyDict d)
  show ?thesis
  proof (cases "map_of d ''scrobbles''")
    case None
    with PyDict show ?thesis
      by (simp add: accepted_count_def)
  next
    case (Some s)
    show ?thesis
    proof (cases s)
      case s: (PyDict sd)
      show ?thesis
      proof (cases "map_of sd ''@attr''")
        case None
        with PyDict Some s show ?thesis
          by (simp add: accepted_count_def)
      next
        case a: (Some a)
        with PyDict Some s assms show ?thesis
          by (cases a) (simp_all add: accepted_count_def nested_accepted_def)
      qed
    qed (use PyDict Some in \<open>simp_all add: accepted_count_def\<close>)
  qed
qed (simp_all add: accepted_count_def)





text \<open>
  C8. A response without the field \<^verbatim>\<open>scrobbles.@attr.accepted\<close> counts as zero accepted:
  the accepted count read from it is 0 (or reading it raises \<^verbatim>\<open>AttributeError\<close>, which
  the handler catches), the iteration leaves \<^verbatim>\<open>success_count\<close> as it was, and the run
  still submits every slice.
\<close>

theorem missing_accepted_adds_zero:
  assumes "nested_accepted j = None"
  shows "(accepted_count lib j = Inr 0 \<or> accepted_count lib j = Inl AttributeError)
     \<and> (\<forall>s \<in> set (submitted (batch_scrobble lib self w a t cnt sd)).
          response s = Inr j \<longrightarrow> added s = 0)
     \<and> (fst (scrobble_tracks lib (run_self st) (run_world st) b) = Inr j \<longrightarrow>
          success_count (batch_step lib cnt' st b) = success_count st)
     \<and> length (submitted (batch_scrobble lib self w a t cnt sd)) = (nat cnt + 49) div 50"
proof -
  note z = lacking_accepted [OF assms, of lib]
  have 2: "\<forall>s \<in> set (submitted (batch_scrobble lib self w a t cnt sd)).
      response s = Inr j \<longrightarrow> added s = 0"
    using accounted_run [of lib self w a t cnt sd] z
    by (auto simp: accounted_def list_all_iff added_def)
  have 3: "fst (scrobble_tracks lib (run_self st) (run_world st) b) = Inr j \<longrightarrow>
      success_count (batch_step lib cnt' st b) = success_count st"
  proof
    assume f: "fst (scrobble_tracks lib (run_self st) (run_world st) b) = Inr j"
    obtain self1 w1 where
      r: "scrobble_tracks lib (run_self st) (run_world st) b = (Inr j, self1, w1)"
      using f by (cases "scrobble_tracks lib (run_self st) (run_world st) b") auto
    show "success_count (batch_step lib cnt' st b) = success_count st"
      using z by (auto simp: batch_step_eq [OF r refl])
  qed
  from z 2 3 run_length [of lib self w a t cnt sd] show ?thesis
    by blast
qed

theorem missing_accepted_adds_zero_witness:
  "nested_accepted (PyDict [(''error'', PyInt 29)]) = None
   \<and> map response
     (submitted (batch_scrobble stub_lib live_scrobbler
        (scripted_world (\<lambda>n. Response 200 (Some (PyDict [(''error'', PyInt 29)]))))
        ''Artist A'' ''Track B'' 120 None)) =
     [Inr (PyDict [(''error'', PyInt 29)]), Inr (PyDict [(''error'', PyInt 29)]),
      Inr (PyDict [(''error'', PyInt 29)])]
   \<and> map added
     (submitted (batch_scrobble stub_lib live_scrobbler
        (scripted_world (\<lambda>n. Response 200 (Some (PyDict [(''error'', PyInt 29)]))))
        ''Artist A'' ''Track B'' 120 None)) = [0, 0, 0]
   \<and> success_count
     (batch_scrobble stub_lib live_scrobbler
        (scripted_world (\<lambda>n. Response 200 (Some (PyDict [(''error'', PyInt 29)]))))
        ''Artist A'' ''Track B'' 120 None) = 0"
proof -
  let ?j = "PyDict [(''error'', PyInt 29)]"
  let ?S = "\<lambda>n::nat. Response 200 (Some ?j)"
  let ?R = "batch_scrobble stub_lib live_scrobbler (scripted_world ?S) ''Artist A'' ''Track B''
    120 None"
  note run = run_120 [of ?S "''Artist A''" "''Track B''"]
  have n: "nested_accepted ?j = None"
    by (simp add: nested_accepted_def)
  have resp: "map response (submitted ?R) = [Inr ?j, Inr ?j, Inr ?j]"
    unfolding run(2) by (simp add: reply_result_ok)
  obtain s0 s1 s2 where s: "submitted ?R = [s0, s1, s2]"
    using length_3 [OF run(1)] by blast
  have "map added (submitted ?R) = [0, 0, 0]"
    using missing_accepted_adds_zero [OF n, of stub_lib live_scrobbler
        "scripted_world ?S" "''Artist A''" "''Track B''" 120 None] resp
    unfolding s by simp
  moreover have "success_count ?R = 0"
    unfolding run(3) by (simp add: reply_added_def reply_result_ok accepted_count_def)
  ultimately show ?thesis
    using n resp by simp
qed

end
